theory Spec2Isabelle
  imports Complex_Main "HOL-Library.Product_Lexorder"
begin

section \<open>Numeric arrays\<close>

text \<open>
  The routing module of LISFLOOD (\<^verbatim>\<open>routing.py\<close>) works on compressed one-dimensional numpy
  arrays of float64, one entry per pixel of the catchment mask. An array is a list of reals
  here: the arithmetic of the source is read as exact real arithmetic, so rounding and the
  IEEE values inf and NaN are outside the model. Where a result of the source depends on an
  operation that has no real value (a power with a negative base, a division by zero), the
  theorems below carry a hypothesis that keeps the operands inside the reals.
\<close>

type_synonym ndarray = "real list"

definition np_power :: "real \<Rightarrow> real \<Rightarrow> real" where
  \<comment> \<open>\<^verbatim>\<open>x ** y\<close> on floats: 1 for exponent 0, the real power for a base \<open>\<ge> 0\<close>.\<close>
  "np_power x y = (if y = 0 then 1 else x powr y)"

definition map3 :: "('a \<Rightarrow> 'b \<Rightarrow> 'c \<Rightarrow> 'd) \<Rightarrow> 'a list \<Rightarrow> 'b list \<Rightarrow> 'c list \<Rightarrow> 'd list" where
  "map3 f xs ys zs = map (\<lambda>(x, y, z). f x y z) (zip xs (zip ys zs))"

definition vadd :: "ndarray \<Rightarrow> ndarray \<Rightarrow> ndarray" where
  "vadd xs ys = map2 (+) xs ys"

definition vsub :: "ndarray \<Rightarrow> ndarray \<Rightarrow> ndarray" where
  "vsub xs ys = map2 (-) xs ys"

definition vmul :: "ndarray \<Rightarrow> ndarray \<Rightarrow> ndarray" where
  "vmul xs ys = map2 (*) xs ys"

definition vdiv :: "ndarray \<Rightarrow> ndarray \<Rightarrow> ndarray" where
  "vdiv xs ys = map2 (/) xs ys"

definition vpow :: "ndarray \<Rightarrow> real \<Rightarrow> ndarray" where
  \<comment> \<open>an array raised to a scalar exponent\<close>
  "vpow xs y = map (\<lambda>x. np_power x y) xs"

definition vrecip :: "ndarray \<Rightarrow> ndarray" where
  \<comment> \<open>\<^verbatim>\<open>1 / xs\<close>\<close>
  "vrecip xs = map (\<lambda>x. 1 / x) xs"

definition vgt :: "ndarray \<Rightarrow> ndarray \<Rightarrow> bool list" where
  "vgt xs ys = map2 (\<lambda>x y. x > y) xs ys"

definition vgt_s :: "ndarray \<Rightarrow> real \<Rightarrow> bool list" where
  "vgt_s xs c = map (\<lambda>x. x > c) xs"

definition vlt_s :: "ndarray \<Rightarrow> real \<Rightarrow> bool list" where
  "vlt_s xs c = map (\<lambda>x. x < c) xs"

definition np_abs :: "ndarray \<Rightarrow> ndarray" where
  "np_abs xs = map abs xs"

definition np_maximum_s :: "ndarray \<Rightarrow> real \<Rightarrow> ndarray" where
  \<comment> \<open>\<^verbatim>\<open>np.maximum(xs, c)\<close> with a scalar \<open>c\<close>\<close>
  "np_maximum_s xs c = map (\<lambda>x. max x c) xs"

definition np_where :: "bool list \<Rightarrow> ndarray \<Rightarrow> ndarray \<Rightarrow> ndarray" where
  "np_where cs xs ys = map3 (\<lambda>c x y. if c then x else y) cs xs ys"

definition np_where_s :: "bool list \<Rightarrow> ndarray \<Rightarrow> real \<Rightarrow> ndarray" where
  \<comment> \<open>\<^verbatim>\<open>np.where(cs, xs, c)\<close> with a scalar \<open>c\<close> in the else branch\<close>
  "np_where_s cs xs c = map2 (\<lambda>b x. if b then x else c) cs xs"

section \<open>State of the routing module\<close>

text \<open>
  The fields of \<^verbatim>\<open>self.var\<close> that the kinematic and the split routing read and write. The
  inverses \<^verbatim>\<open>InvBeta\<close>, \<^verbatim>\<open>InvChanLength\<close>, \<^verbatim>\<open>InvChannelAlpha\<close> and \<^verbatim>\<open>InvChannelAlpha2\<close> are set
  once in \<^verbatim>\<open>initial\<close> and \<^verbatim>\<open>initialSecond\<close> as \<^verbatim>\<open>1 / x\<close> of the field they invert.
\<close>

record routing_var =
  Beta :: real
  ChanLength :: ndarray
  ChannelAlpha :: ndarray
  ChannelAlpha2 :: ndarray
  QLimit :: ndarray
  M3Limit :: ndarray
  Chan2M3Start :: ndarray
  Chan2QStart :: ndarray
  ChanQKin :: ndarray
  ChanM3Kin :: ndarray
  Chan2QKin :: ndarray
  Chan2M3Kin :: ndarray
  Sideflow1Chan :: ndarray
  CrossSection2Area :: ndarray
  ChanQ :: ndarray
  ChanM3 :: ndarray
  sumDisDay :: ndarray

definition InvBeta :: "routing_var \<Rightarrow> real" where
  "InvBeta v = 1 / Beta v"

definition InvChanLength :: "routing_var \<Rightarrow> ndarray" where
  "InvChanLength v = vrecip (ChanLength v)"

definition InvChannelAlpha :: "routing_var \<Rightarrow> ndarray" where
  "InvChannelAlpha v = vrecip (ChannelAlpha v)"

definition InvChannelAlpha2 :: "routing_var \<Rightarrow> ndarray" where
  "InvChannelAlpha2 v = vrecip (ChannelAlpha2 v)"

text \<open>
  The parallel kinematic wave solver \<^verbatim>\<open>river_router.kinematicWaveRouting(Q, sideflow, line)\<close>
  lives in another module (\<^verbatim>\<open>kinematic_wave_parallel\<close>). It overwrites the discharge array in
  place; here it is a parameter that maps the discharge at time t and the lateral inflow to
  the discharge at time t+dt, for the main channel or for the floodplain line.
\<close>

datatype channel = main_channel | floodplains

type_synonym kw_router = "channel \<Rightarrow> ndarray \<Rightarrow> ndarray \<Rightarrow> ndarray"

section \<open>Kinematic wave routing\<close>

definition KINRouting :: "kw_router \<Rightarrow> routing_var \<Rightarrow> ndarray \<Rightarrow> ndarray \<Rightarrow> ndarray \<times> ndarray" where
  \<comment> \<open>\<^verbatim>\<open>SideflowChan[np.isnan(SideflowChan)] = 0\<close> changes nothing on reals\<close>
  "KINRouting kw v ChanQKin0 SideflowChan =
     (let ChanQKin1 = kw main_channel ChanQKin0 SideflowChan;
          ChanM3Kin1 = vmul (vmul (ChanLength v) (ChannelAlpha v)) (vpow ChanQKin1 (Beta v));
          ChanM3Kin2 = np_maximum_s ChanM3Kin1 0;
          ChanQKin2 = vpow (vmul (vmul ChanM3Kin2 (InvChanLength v)) (InvChannelAlpha v)) (InvBeta v)
      in (ChanQKin2, ChanM3Kin2))"

section \<open>Split routing\<close>

definition SplitRouting :: "kw_router \<Rightarrow> routing_var \<Rightarrow> ndarray \<Rightarrow> routing_var" where
  "SplitRouting kw v SideflowChan =
     (let SideflowRatio =
            np_where_s (vgt_s (vadd (ChanM3Kin v) (Chan2M3Kin v)) 0)
              (vdiv (ChanM3Kin v) (vadd (ChanM3Kin v) (Chan2M3Kin v))) 0;
          Sideflow1a =
            np_where (vgt (vsub (vadd (ChanM3Kin v) (Chan2M3Kin v)) (Chan2M3Start v)) (M3Limit v))
              (vmul SideflowRatio SideflowChan) SideflowChan;
          Sideflow1b = np_where (vlt_s (np_abs SideflowChan) (1 / 10 ^ 7)) SideflowChan Sideflow1a;
          Sideflow2a = vsub SideflowChan Sideflow1b;
          Sideflow2Chan = vadd Sideflow2a (vmul (Chan2QStart v) (InvChanLength v));
          \<comment> \<open>main channel routing\<close>
          ChanQKin1 = kw main_channel (ChanQKin v) Sideflow1b;
          ChanM3Kin1 = vmul (vmul (ChanLength v) (ChannelAlpha v)) (vpow ChanQKin1 (Beta v));
          ChanM3Kin2 = np_maximum_s ChanM3Kin1 0;
          ChanQKin2 = vpow (vmul (vmul ChanM3Kin2 (InvChanLength v)) (InvChannelAlpha v)) (InvBeta v);
          \<comment> \<open>floodplains channel routing\<close>
          Chan2QKin1 = kw floodplains (Chan2QKin v) Sideflow2Chan;
          Chan2M3Kin1 = vmul (vmul (ChanLength v) (ChannelAlpha2 v)) (vpow Chan2QKin1 (Beta v));
          diffM3 = vsub Chan2M3Kin1 (Chan2M3Start v);
          Chan2M3Kin2 = np_where (vlt_s diffM3 0) (Chan2M3Start v) Chan2M3Kin1;
          CrossSection2Area' = vmul (vsub Chan2M3Kin2 (Chan2M3Start v)) (InvChanLength v);
          Chan2QKin2 = vpow (vmul (vmul Chan2M3Kin2 (InvChanLength v)) (InvChannelAlpha2 v)) (InvBeta v)
      in v\<lparr>Sideflow1Chan := Sideflow1b, ChanQKin := ChanQKin2, ChanM3Kin := ChanM3Kin2,
            Chan2M3Kin := Chan2M3Kin2, CrossSection2Area := CrossSection2Area',
            Chan2QKin := Chan2QKin2\<rparr>)"

text \<open>
  The two lateral inflows that \<^verbatim>\<open>SplitRouting\<close> hands to the solver: \<^verbatim>\<open>self.var.Sideflow1Chan\<close>
  is kept in the state; \<^verbatim>\<open>Sideflow2Chan\<close> is a local of the source, recomputed here from the
  same expressions.
\<close>

definition Sideflow2Chan :: "routing_var \<Rightarrow> ndarray \<Rightarrow> ndarray \<Rightarrow> ndarray" where
  "Sideflow2Chan v SideflowChan Sideflow1 =
     vadd (vsub SideflowChan Sideflow1) (vmul (Chan2QStart v) (InvChanLength v))"

section \<open>The routing sub-step\<close>

record options =
  InitLisflood :: bool
  SplitRouting_on :: bool
  MCTRouting_on :: bool

text \<open>
  The routing part of \<^verbatim>\<open>dynamic\<close>: three branches guarded by the options. The body of the
  third branch (kinematic and Muskingum-Cunge-Todini routing) reads the drainage network
  through PCRaster's \<^verbatim>\<open>upstream\<close>; it is a parameter here.
\<close>

definition dynamic_routing ::
  "kw_router \<Rightarrow> (routing_var \<Rightarrow> ndarray \<Rightarrow> routing_var) \<Rightarrow> options \<Rightarrow> routing_var \<Rightarrow> ndarray \<Rightarrow> routing_var" where
  "dynamic_routing kw mct_branch opt v SideflowChan =
     (let v1 = (if InitLisflood opt \<or> (\<not> SplitRouting_on opt \<and> \<not> MCTRouting_on opt) then
                  (let (ChanQKinOutEnd, ChanM3KinEnd) = KINRouting kw v (ChanQKin v) SideflowChan
                   in v\<lparr>ChanQKin := ChanQKinOutEnd, ChanM3Kin := ChanM3KinEnd,
                         ChanQ := ChanQKinOutEnd, ChanM3 := ChanM3KinEnd,
                         sumDisDay := vadd (sumDisDay v) ChanQKinOutEnd\<rparr>)
                else v);
          v2 = (if \<not> InitLisflood opt \<and> SplitRouting_on opt \<and> \<not> MCTRouting_on opt then
                  (let s = SplitRouting kw v1 SideflowChan;
                       ChanQ' = np_maximum_s (vsub (vadd (ChanQKin s) (Chan2QKin s)) (QLimit s)) 0;
                       ChanM3' = vsub (vadd (ChanM3Kin s) (Chan2M3Kin s)) (Chan2M3Start s)
                   in s\<lparr>ChanQ := ChanQ', ChanM3 := ChanM3', sumDisDay := vadd (sumDisDay s) ChanQ'\<rparr>)
                else v1);
          v3 = (if \<not> InitLisflood opt \<and> \<not> SplitRouting_on opt \<and> MCTRouting_on opt then
                  mct_branch v2 SideflowChan
                else v2)
      in v3)"

text \<open>All arrays of the state and the lateral inflow have one entry per pixel.\<close>

definition shapes_ok :: "nat \<Rightarrow> routing_var \<Rightarrow> bool" where
  "shapes_ok n v \<longleftrightarrow>
     length (ChanLength v) = n \<and> length (ChannelAlpha v) = n \<and> length (ChannelAlpha2 v) = n \<and>
     length (QLimit v) = n \<and> length (M3Limit v) = n \<and> length (Chan2M3Start v) = n \<and>
     length (Chan2QStart v) = n \<and> length (ChanQKin v) = n \<and> length (ChanM3Kin v) = n \<and>
     length (Chan2QKin v) = n \<and> length (Chan2M3Kin v) = n"


text \<open>
  The physical parameters: one entry per pixel, positive lengths and roughness
  coefficients, a positive exponent. The solver returns one non-negative discharge per
  pixel. Under these conditions every power of the two routing lines has a non-negative
  base.
\<close>

definition params_ok :: "nat \<Rightarrow> routing_var \<Rightarrow> bool" where
  "params_ok n v \<longleftrightarrow>
     shapes_ok n v \<and> 0 < Beta v \<and>
     (\<forall>i<n. 0 < ChanLength v ! i \<and> 0 < ChannelAlpha v ! i \<and> 0 < ChannelAlpha2 v ! i)"

definition kw_ok :: "nat \<Rightarrow> kw_router \<Rightarrow> bool" where
  "kw_ok n kw \<longleftrightarrow>
     (\<forall>c Q S. length Q = n \<and> length S = n \<longrightarrow>
        length (kw c Q S) = n \<and> (\<forall>i<n. 0 \<le> kw c Q S ! i))"

section \<open>Muskingum-Cunge-Todini routing of one pixel\<close>

definition cotan :: "real \<Rightarrow> real" where
  "cotan x = cos x / sin x"

definition qoh :: "real \<Rightarrow> real \<Rightarrow> real \<Rightarrow> real \<Rightarrow> real \<Rightarrow> real \<times> real \<times> real \<times> real \<times> real" where
  \<comment> \<open>discharge from water depth: returns \<open>(q, a, b, p, cel)\<close>\<close>
  "qoh y s0 Balv ANalv Nalv =
     (let alpha = 5 / 3;
          rs0 = sqrt s0;
          alpham = alpha - 1;
          c = (if ANalv < pi / 2 then cotan ANalv else 0);
          s = (if ANalv < pi / 2 then sin ANalv else 1);
          a = (Balv + y * c) * y;
          b = Balv + 2 * y * c;
          p = Balv + 2 * y / s;
          q = rs0 / Nalv * np_power a alpha / np_power p alpham;
          cel = (q / 3) * (5 / a - 4 / (p * b * s))
      in (q, a, b, p, cel))"

definition eps :: real where
  \<comment> \<open>\<^verbatim>\<open>eps = 1e-06\<close>, in \<^verbatim>\<open>MCTRouting_single\<close> and in \<^verbatim>\<open>hoq\<close>\<close>
  "eps = 1 / 10 ^ 6"

definition max_tries :: nat where
  "max_tries = 1000"


text \<open>
  The Newton-Raphson loop \<^verbatim>\<open>for tries in range(1, max_tries)\<close> of \<^verbatim>\<open>hoq\<close>, over the list of the
  values of \<^verbatim>\<open>tries\<close>. The second component of the result counts the passes through the loop
  body; the source does not keep it.
\<close>

fun hoq_loop :: "nat list \<Rightarrow> real \<Rightarrow> real \<Rightarrow> real \<Rightarrow> real \<Rightarrow> real \<Rightarrow> real \<Rightarrow> real \<times> nat" where
  "hoq_loop [] q s0 Balv ANalv Nalv y = (y, 0)"
| "hoq_loop (tries # rest) q s0 Balv ANalv Nalv y =
     (case qoh y s0 Balv ANalv Nalv of (q0, Ax, Bx, Px, cel) \<Rightarrow>
        (let fy = q0 - q;
             dfy = Bx * cel;
             dy = fy / dfy;
             y' = y - dy
         in if \<bar>dy\<bar> < eps then (y', 1)
            else (case hoq_loop rest q s0 Balv ANalv Nalv y' of (r, k) \<Rightarrow> (r, Suc k))))"










section \<open>Compressing to and exploding from the MCT pixels\<close>

datatype np_error = ValueError | IndexError

definition get_mct_pix :: "bool list \<Rightarrow> 'a list \<Rightarrow> np_error + 'a list" where
  \<comment> \<open>\<^verbatim>\<open>np.ma.masked_where\<close> raises IndexError when the mask and the array differ in shape;
      \<^verbatim>\<open>compressed\<close> keeps the entries that are not masked, in their order\<close>
  "get_mct_pix IsChannelKinematic var =
     (if length var \<noteq> length IsChannelKinematic then Inl IndexError
      else Inr (map snd (filter (\<lambda>(m, x). \<not> m) (zip IsChannelKinematic var))))"

fun explode :: "bool list \<Rightarrow> real list \<Rightarrow> real list" where
  \<comment> \<open>\<^verbatim>\<open>x[~x.mask] = var\<close> on an array of zeros: the values go to the unmasked positions in
      their order\<close>
  "explode [] var = []"
| "explode (True # ms) var = 0 # explode ms var"
| "explode (False # ms) [] = 0 # explode ms []"
| "explode (False # ms) (x # var) = x # explode ms var"

definition put_mct_pix :: "bool list \<Rightarrow> real list \<Rightarrow> np_error + real list" where
  \<comment> \<open>the assignment takes as many values as there are unmasked positions, or one value that
      it broadcasts to all of them; any other length raises ValueError\<close>
  "put_mct_pix IsChannelKinematic var =
     (let k = length (filter Not IsChannelKinematic) in
      if length var = k then Inr (explode IsChannelKinematic var)
      else if length var = 1 then Inr (explode IsChannelKinematic (replicate k (hd var)))
      else Inl ValueError)"

definition mct_positions :: "bool list \<Rightarrow> nat list" where
  \<comment> \<open>the indices of the MCT pixels (mask entry False) in the array over all pixels\<close>
  "mct_positions IsChannelKinematic =
     filter (\<lambda>i. \<not> IsChannelKinematic ! i) [0..<length IsChannelKinematic]"

section \<open>Routing orders of the MCT wave\<close>

text \<open>
  \<^verbatim>\<open>mctWave._setMCTRoutingOrders\<close> reads the topological distance from the outlets that
  \<^verbatim>\<open>topoDistFromSea\<close> (module \<^verbatim>\<open>kinematic_wave_parallel\<close>) computes from the stream lookups;
  that array is the argument here. The data frame with the columns \<^verbatim>\<open>pixels\<close> and \<^verbatim>\<open>order\<close>
  is the list of the rows \<open>(order, pixel)\<close>; \<^verbatim>\<open>sort_values(["order", "pixels"])\<close> sorts
  them lexicographically.
\<close>

definition routing_order :: "int list \<Rightarrow> int list" where
  "routing_order ocean_topo_distance =
     map (\<lambda>d. Max (set ocean_topo_distance) - d) ocean_topo_distance"

definition sort_values :: "int list \<Rightarrow> (int \<times> nat) list" where
  "sort_values order = sort (zip order [0..<length order])"







section \<open>Inputs for concrete evaluations\<close>

definition kw_keep :: kw_router where
  \<comment> \<open>a solver that returns the magnitude of the discharge it was given\<close>
  "kw_keep c Q S = np_abs Q"

definition v_two :: routing_var where
  \<comment> \<open>two pixels of length 2 with \<open>\<alpha> = 3\<close>, \<open>\<alpha>\<^sub>2 = 4\<close>, \<open>\<beta> = 1\<close> and \<open>QLimit = 1\<close>, so that
      \<open>M3Limit = 6\<close> and \<open>Chan2M3Start = 8\<close>; the first holds 5 in the main channel and the
      floodplain line is at its start volume, the second holds 7 and 10\<close>
  "v_two = \<lparr>Beta = 1, ChanLength = [2, 2], ChannelAlpha = [3, 3], ChannelAlpha2 = [4, 4],
            QLimit = [1, 1], M3Limit = [6, 6], Chan2M3Start = [8, 8], Chan2QStart = [0, 0],
            ChanQKin = [5 / 6, 7 / 6], ChanM3Kin = [5, 7], Chan2QKin = [1, 5 / 4],
            Chan2M3Kin = [8, 10], Sideflow1Chan = [0, 0], CrossSection2Area = [0, 0],
            ChanQ = [5 / 6, 17 / 12], ChanM3 = [5, 9], sumDisDay = [0, 0]\<rparr>"

definition opt_split :: options where
  "opt_split = \<lparr>InitLisflood = False, SplitRouting_on = True, MCTRouting_on = False\<rparr>"

text \<open>The discharges that the solver returns for the two lines inside \<^verbatim>\<open>SplitRouting\<close>.\<close>

definition Q1_routed :: "kw_router \<Rightarrow> routing_var \<Rightarrow> ndarray \<Rightarrow> ndarray" where
  "Q1_routed kw v S = kw main_channel (ChanQKin v) (Sideflow1Chan (SplitRouting kw v S))"

definition Q2_routed :: "kw_router \<Rightarrow> routing_var \<Rightarrow> ndarray \<Rightarrow> ndarray" where
  "Q2_routed kw v S =
     kw floodplains (Chan2QKin v) (Sideflow2Chan v S (Sideflow1Chan (SplitRouting kw v S)))"

section \<open>Manning's formula as the specification states it\<close>

text \<open>
  The discharge and the celerity of a trapezoidal, triangular or rectangular section as the
  specification writes them, to compare with \<open>qoh\<close>: the cotangent of the side angle is
  taken as 0 and its sine as 1 for a rectangular section (angle \<open>\<ge> \<pi>/2\<close>).
\<close>

definition section_cot :: "real \<Rightarrow> real" where
  "section_cot ANalv = (if pi / 2 \<le> ANalv then 0 else cot ANalv)"

definition section_sin :: "real \<Rightarrow> real" where
  "section_sin ANalv = (if pi / 2 \<le> ANalv then 1 else sin ANalv)"

definition manning_A :: "real \<Rightarrow> real \<Rightarrow> real \<Rightarrow> real" where
  "manning_A y Balv ANalv = (Balv + y * section_cot ANalv) * y"

definition manning_B :: "real \<Rightarrow> real \<Rightarrow> real \<Rightarrow> real" where
  "manning_B y Balv ANalv = Balv + 2 * y * section_cot ANalv"

definition manning_P :: "real \<Rightarrow> real \<Rightarrow> real \<Rightarrow> real" where
  "manning_P y Balv ANalv = Balv + 2 * y / section_sin ANalv"

definition manning_q :: "real \<Rightarrow> real \<Rightarrow> real \<Rightarrow> real \<Rightarrow> real \<Rightarrow> real" where
  "manning_q y s0 Balv ANalv Nalv =
     sqrt s0 / Nalv * manning_A y Balv ANalv powr (5 / 3) / manning_P y Balv ANalv powr (2 / 3)"

definition manning_cel :: "real \<Rightarrow> real \<Rightarrow> real \<Rightarrow> real \<Rightarrow> real \<Rightarrow> real" where
  "manning_cel y s0 Balv ANalv Nalv =
     (manning_q y s0 Balv ANalv Nalv / 3) *
     (5 / manning_A y Balv ANalv
      - 4 / (manning_P y Balv ANalv * manning_B y Balv ANalv * section_sin ANalv))"

section \<open>A steady uniform flow in a triangular channel\<close>

text \<open>
  A pixel with a triangular section (bottom width 0, side angle \<open>\<pi>/4\<close>), bed slope 1/100,
  Manning coefficient 1/20, length 225 and time step 225, carrying the discharge 1 at both
  ends and at both times. The first approximation of the depth in \<^verbatim>\<open>hoq\<close> is exact for a
  triangular section: the depth is 1, the first Newton correction is 0, and the routine
  returns the inflow as outflow and the volume 225 = length \<open>\<cdot>\<close> wet area.
\<close>

lemma two_sqrt2: "2 * sqrt 2 = (2::real) powr (3 / 2)"
proof -
  have "(2::real) powr (3 / 2) = 2 powr (1 + 1 / 2)" by simp
  also have "\<dots> = 2 powr 1 * 2 powr (1 / 2)" by (rule powr_add)
  also have "\<dots> = 2 * sqrt 2" by (simp add: powr_half_sqrt)
  finally show ?thesis by simp
qed



lemma two_sqrt2_two_thirds: "(2 * sqrt 2 :: real) powr (2 / 3) = 2"
  by (simp add: two_sqrt2 powr_powr)


lemma quarter_pi: "pi / 4 < pi / 2"
  by simp

lemma four_over_sqrt2: "4 / sqrt 2 = 2 * sqrt (2::real)"
proof -
  have "sqrt 2 * sqrt 2 = (2::real)" by simp
  then show ?thesis by (simp add: field_simps)
qed



lemma sqrt_hundredth: "sqrt (1 / 100 :: real) = 1 / 10"
  by (rule real_sqrt_unique) (simp_all add: power2_eq_square)

lemma four_sqrt2_two_thirds: "(4 / sqrt 2 :: real) powr (2 / 3) = 2"
  by (simp only: four_over_sqrt2 two_sqrt2_two_thirds)

lemma qoh_example: "qoh 1 (1 / 100) 0 (pi / 4) (1 / 20) = (1, 1, 2, 2 * sqrt 2, 4 / 3)"
proof -
  have s2: "sqrt 2 * sqrt 2 = (2::real)" by simp
  have p: "2 / (sqrt 2 / 2) = 4 / sqrt (2::real)" by simp
  show ?thesis
    by (simp add: qoh_def Let_def cotan_def sin_45 cos_45 np_power_def sqrt_hundredth
        four_sqrt2_two_thirds four_over_sqrt2 two_sqrt2_two_thirds s2)
qed






section \<open>Properties of the kinematic and the split routing\<close>


lemma map3_length [simp]: "length (map3 f xs ys zs) = min (length xs) (min (length ys) (length zs))"
  by (simp add: map3_def)

lemma map3_nth:
  "i < length xs \<Longrightarrow> i < length ys \<Longrightarrow> i < length zs \<Longrightarrow> map3 f xs ys zs ! i = f (xs ! i) (ys ! i) (zs ! i)"
  by (simp add: map3_def)

lemmas vops = vadd_def vsub_def vmul_def vdiv_def vpow_def vrecip_def vgt_def vgt_s_def vlt_s_def
  np_abs_def np_maximum_s_def np_where_def np_where_s_def

lemma np_power_nonneg: "0 \<le> np_power x y"
  by (simp add: np_power_def)




lemma kw_ok_length:
  "kw_ok n kw \<Longrightarrow> length Q = n \<Longrightarrow> length S = n \<Longrightarrow> length (kw c Q S) = n"
  unfolding kw_ok_def by blast


lemma kw_keep_ok: "kw_ok n kw_keep"
  by (simp add: kw_ok_def kw_keep_def np_abs_def)




lemma Split_Sideflow1_length:
  assumes "shapes_ok n v" "length S = n"
  shows "length (Sideflow1Chan (SplitRouting kw v S)) = n"
  using assms by (simp add: SplitRouting_def Let_def shapes_ok_def vops)

lemma Sideflow2Chan_length:
  assumes "shapes_ok n v" "length S = n" "length S1 = n"
  shows "length (Sideflow2Chan v S S1) = n"
  using assms by (simp add: Sideflow2Chan_def shapes_ok_def vops InvChanLength_def)


lemma Split_fields:
  "Beta (SplitRouting kw v S) = Beta v \<and> ChanLength (SplitRouting kw v S) = ChanLength v \<and>
   ChannelAlpha (SplitRouting kw v S) = ChannelAlpha v \<and> ChannelAlpha2 (SplitRouting kw v S) = ChannelAlpha2 v \<and>
   QLimit (SplitRouting kw v S) = QLimit v \<and> M3Limit (SplitRouting kw v S) = M3Limit v \<and>
   Chan2M3Start (SplitRouting kw v S) = Chan2M3Start v \<and> Chan2QStart (SplitRouting kw v S) = Chan2QStart v"
  by (simp add: SplitRouting_def Let_def)

lemma Split_routed_length:
  assumes "shapes_ok n v" "length S = n" "kw_ok n kw"
  shows "length (Q1_routed kw v S) = n \<and> length (Q2_routed kw v S) = n"
proof -
  have s1: "length (Sideflow1Chan (SplitRouting kw v S)) = n"
    using assms(1,2) by (rule Split_Sideflow1_length)
  have s2: "length (Sideflow2Chan v S (Sideflow1Chan (SplitRouting kw v S))) = n"
    using assms(1,2) s1 by (rule Sideflow2Chan_length)
  have q: "length (ChanQKin v) = n" "length (Chan2QKin v) = n"
    using assms(1) by (simp_all add: shapes_ok_def)
  show ?thesis unfolding Q1_routed_def Q2_routed_def
    using kw_ok_length[OF assms(3) q(1) s1] kw_ok_length[OF assms(3) q(2) s2] by simp
qed


lemma Split_flood_nth:
  assumes "shapes_ok n v" "length S = n" "length (Q2_routed kw v S) = n" "i < n"
  shows "Chan2M3Kin (SplitRouting kw v S) ! i =
           (if ChanLength v ! i * ChannelAlpha2 v ! i * np_power (Q2_routed kw v S ! i) (Beta v)
                 - Chan2M3Start v ! i < 0
            then Chan2M3Start v ! i
            else ChanLength v ! i * ChannelAlpha2 v ! i * np_power (Q2_routed kw v S ! i) (Beta v)) \<and>
         Chan2QKin (SplitRouting kw v S) ! i =
           np_power (Chan2M3Kin (SplitRouting kw v S) ! i * (1 / ChanLength v ! i) * (1 / ChannelAlpha2 v ! i)) (InvBeta v) \<and>
         length (Chan2M3Kin (SplitRouting kw v S)) = n \<and> length (Chan2QKin (SplitRouting kw v S)) = n"
  using assms unfolding Q2_routed_def
  by (simp add: SplitRouting_def Sideflow2Chan_def Let_def shapes_ok_def vops map3_nth InvChanLength_def InvChannelAlpha2_def)

text \<open>
  Claim C9. After \<^verbatim>\<open>SplitRouting\<close> the storage of the floodplain line is, at every pixel, at
  least its bankfull-start volume \<^verbatim>\<open>Chan2M3Start\<close>, which the call leaves unchanged.
\<close>

theorem SplitRouting_floodplain_floor:
  assumes "shapes_ok n v" "length S = n" "kw_ok n kw"
  shows "Chan2M3Start (SplitRouting kw v S) = Chan2M3Start v \<and>
         length (Chan2M3Kin (SplitRouting kw v S)) = n \<and>
         (\<forall>i<n. Chan2M3Start v ! i \<le> Chan2M3Kin (SplitRouting kw v S) ! i)"
proof -
  have len: "length (Q2_routed kw v S) = n"
    using Split_routed_length[OF assms] by simp
  have "Chan2M3Start v ! i \<le> Chan2M3Kin (SplitRouting kw v S) ! i" if "i < n" for i
    using Split_flood_nth[OF assms(1,2) len that] by (simp split: if_splits)
  moreover have "length (Chan2M3Kin (SplitRouting kw v S)) = n"
    using assms(1,2) len unfolding Q2_routed_def
    by (simp add: SplitRouting_def Sideflow2Chan_def Let_def shapes_ok_def vops InvChanLength_def)
  ultimately show ?thesis using Split_fields[of kw v S] by simp
qed

lemma v_two_shapes: "shapes_ok 2 v_two"
  by (simp add: shapes_ok_def v_two_def)

lemma v_two_split:
  "SplitRouting kw_keep v_two [1, 1] =
     v_two\<lparr>Sideflow1Chan := [1, 7 / 17], ChanQKin := [5 / 6, 7 / 6], ChanM3Kin := [5, 7],
            Chan2M3Kin := [8, 10], CrossSection2Area := [0, 1], Chan2QKin := [1, 5 / 4]\<rparr>"
  by (simp add: SplitRouting_def v_two_def kw_keep_def vops InvChanLength_def InvChannelAlpha_def
        InvChannelAlpha2_def InvBeta_def np_power_def map3_def)

text \<open>On \<open>v_two\<close> the floodplain volumes after the call are 8 and 10, the start volume is 8.\<close>

theorem SplitRouting_floodplain_floor_witness:
  "Chan2M3Kin (SplitRouting kw_keep v_two [1, 1]) = [8, 10] \<and>
   Chan2M3Start v_two ! 0 \<le> Chan2M3Kin (SplitRouting kw_keep v_two [1, 1]) ! 0 \<and>
   Chan2M3Start v_two ! 1 \<le> Chan2M3Kin (SplitRouting kw_keep v_two [1, 1]) ! 1"
proof -
  have "length [1, 1 :: real] = 2" by simp
  from SplitRouting_floodplain_floor[OF v_two_shapes this kw_keep_ok]
  have "\<forall>i<2. Chan2M3Start v_two ! i \<le> Chan2M3Kin (SplitRouting kw_keep v_two [1, 1]) ! i"
    by blast
  then have "Chan2M3Start v_two ! 0 \<le> Chan2M3Kin (SplitRouting kw_keep v_two [1, 1]) ! 0"
    and "Chan2M3Start v_two ! 1 \<le> Chan2M3Kin (SplitRouting kw_keep v_two [1, 1]) ! 1"
    by simp_all
  then show ?thesis by (simp add: v_two_split)
qed




lemma dynamic_split_unfold:
  assumes "\<not> InitLisflood opt" "SplitRouting_on opt" "\<not> MCTRouting_on opt"
  shows "dynamic_routing kw mct opt v S =
     (let s = SplitRouting kw v S;
          ChanQ' = np_maximum_s (vsub (vadd (ChanQKin s) (Chan2QKin s)) (QLimit s)) 0
      in s\<lparr>ChanQ := ChanQ', ChanM3 := vsub (vadd (ChanM3Kin s) (Chan2M3Kin s)) (Chan2M3Start s),
            sumDisDay := vadd (sumDisDay s) ChanQ'\<rparr>)"
  using assms by (simp add: dynamic_routing_def Let_def)

lemma Split_lengths:
  assumes "shapes_ok n v" "length S = n" "kw_ok n kw"
  shows "length (ChanQKin (SplitRouting kw v S)) = n \<and> length (ChanM3Kin (SplitRouting kw v S)) = n \<and>
         length (Chan2QKin (SplitRouting kw v S)) = n \<and> length (Chan2M3Kin (SplitRouting kw v S)) = n \<and>
         length (QLimit (SplitRouting kw v S)) = n \<and> length (Chan2M3Start (SplitRouting kw v S)) = n"
proof -
  have r: "length (Q1_routed kw v S) = n" "length (Q2_routed kw v S) = n"
    using Split_routed_length[OF assms] by simp_all
  show ?thesis
    using assms(1,2) r unfolding Q1_routed_def Q2_routed_def
    by (simp add: SplitRouting_def Sideflow2Chan_def Let_def shapes_ok_def vops InvChanLength_def
        InvChannelAlpha_def InvChannelAlpha2_def)
qed

lemma dynamic_split_commit:
  assumes opt: "\<not> InitLisflood opt" "SplitRouting_on opt" "\<not> MCTRouting_on opt"
    and par: "params_ok n v" and len: "length S = n" and kw: "kw_ok n kw"
    and run: "dynamic_routing kw mct opt v S = v'"
    and i: "i < n"
  shows "ChanQ v' ! i = max (ChanQKin v' ! i + Chan2QKin v' ! i - QLimit v' ! i) 0 \<and>
         ChanM3 v' ! i = ChanM3Kin v' ! i + Chan2M3Kin v' ! i - Chan2M3Start v' ! i \<and>
         0 \<le> ChanQ v' ! i \<and> ChanQKin v' ! i \<le> ChanQ v' ! i + QLimit v' ! i"
proof -
  let ?s = "SplitRouting kw v S"
  have sh: "shapes_ok n v" using par by (simp add: params_ok_def)
  note ok = sh len kw
  note L = Split_lengths[OF ok]
  have v': "ChanQKin v' = ChanQKin ?s" "Chan2QKin v' = Chan2QKin ?s" "QLimit v' = QLimit ?s"
    "ChanM3Kin v' = ChanM3Kin ?s" "Chan2M3Kin v' = Chan2M3Kin ?s" "Chan2M3Start v' = Chan2M3Start ?s"
    "ChanQ v' = np_maximum_s (vsub (vadd (ChanQKin ?s) (Chan2QKin ?s)) (QLimit ?s)) 0"
    "ChanM3 v' = vsub (vadd (ChanM3Kin ?s) (Chan2M3Kin ?s)) (Chan2M3Start ?s)"
    using run[symmetric] by (simp_all add: dynamic_split_unfold[OF opt] Let_def)
  have Q: "ChanQ v' ! i = max (ChanQKin v' ! i + Chan2QKin v' ! i - QLimit v' ! i) 0"
    using L i by (simp add: v' vops)
  have M: "ChanM3 v' ! i = ChanM3Kin v' ! i + Chan2M3Kin v' ! i - Chan2M3Start v' ! i"
    using L i by (simp add: v' vops)
  have r2: "length (Q2_routed kw v S) = n" using Split_routed_length[OF ok] by simp
  have "Chan2QKin ?s ! i =
      np_power (Chan2M3Kin ?s ! i * (1 / ChanLength v ! i) * (1 / ChannelAlpha2 v ! i)) (InvBeta v)"
    using Split_flood_nth[OF ok(1,2) r2 i] by blast
  then have "0 \<le> Chan2QKin v' ! i" by (simp add: v' np_power_nonneg)
  with Q M show ?thesis by simp
qed

text \<open>
  Claim C4. When the split routing branch of the sub-step is taken (no \<^verbatim>\<open>InitLisflood\<close>,
  \<^verbatim>\<open>SplitRouting\<close> on, \<^verbatim>\<open>MCTRouting\<close> off), the totals committed at every pixel are
  \<open>ChanQ = max (ChanQKin + Chan2QKin - QLimit) 0\<close> and
  \<open>ChanM3 = ChanM3Kin + Chan2M3Kin - Chan2M3Start\<close>; hence \<open>ChanQ \<ge> 0\<close> and
  \<open>ChanQ + QLimit \<ge> ChanQKin\<close>.
\<close>

theorem dynamic_split_totals:
  assumes opt: "\<not> InitLisflood opt" "SplitRouting_on opt" "\<not> MCTRouting_on opt"
    and par: "params_ok n v" and len: "length S = n" and kw: "kw_ok n kw"
    and run: "dynamic_routing kw mct opt v S = v'"
    and i: "i < n"
  shows "ChanQ v' ! i = max (ChanQKin v' ! i + Chan2QKin v' ! i - QLimit v' ! i) 0 \<and>
         ChanM3 v' ! i = ChanM3Kin v' ! i + Chan2M3Kin v' ! i - Chan2M3Start v' ! i \<and>
         0 \<le> ChanQ v' ! i \<and> ChanQKin v' ! i \<le> ChanQ v' ! i + QLimit v' ! i"
  using assms by (rule dynamic_split_commit)

lemma v_two_params: "params_ok 2 v_two"
  by (simp add: params_ok_def v_two_shapes) (simp add: v_two_def less_Suc_eq numeral_2_eq_2)

lemma v_two_dynamic:
  "dynamic_routing kw_keep mct opt_split v_two [1, 1] =
     v_two\<lparr>Sideflow1Chan := [1, 7 / 17], ChanQKin := [5 / 6, 7 / 6], ChanM3Kin := [5, 7],
            Chan2M3Kin := [8, 10], CrossSection2Area := [0, 1], Chan2QKin := [1, 5 / 4],
            ChanQ := [5 / 6, 17 / 12], ChanM3 := [5, 9], sumDisDay := [5 / 6, 17 / 12]\<rparr>"
  by (simp add: dynamic_routing_def opt_split_def v_two_split Let_def)
     (simp add: v_two_def vops)

text \<open>The second pixel of \<open>v_two\<close>: \<open>ChanQ = 7/6 + 5/4 - 1\<close> and \<open>ChanM3 = 7 + 10 - 8\<close>.\<close>

theorem dynamic_split_totals_witness:
  "ChanQ (dynamic_routing kw_keep (\<lambda>v S. v) opt_split v_two [1, 1]) ! 1 = 17 / 12 \<and>
   ChanM3 (dynamic_routing kw_keep (\<lambda>v S. v) opt_split v_two [1, 1]) ! 1 = 9 \<and>
   ChanQKin (dynamic_routing kw_keep (\<lambda>v S. v) opt_split v_two [1, 1]) ! 1
     \<le> ChanQ (dynamic_routing kw_keep (\<lambda>v S. v) opt_split v_two [1, 1]) ! 1
        + QLimit (dynamic_routing kw_keep (\<lambda>v S. v) opt_split v_two [1, 1]) ! 1"
proof -
  have o: "\<not> InitLisflood opt_split" "SplitRouting_on opt_split" "\<not> MCTRouting_on opt_split"
    by (simp_all add: opt_split_def)
  have l: "length [1, 1 :: real] = 2" "(1::nat) < 2" by simp_all
  from dynamic_split_totals[OF o v_two_params l(1) kw_keep_ok refl l(2), of "\<lambda>v S. v"]
  show ?thesis by (simp add: v_two_dynamic) 
qed










section \<open>Properties of the Muskingum-Cunge-Todini routing of a pixel\<close>

text \<open>
  Claim C7. For every depth and every section, \<^verbatim>\<open>qoh\<close> returns Manning's discharge
  \<open>q = sqrt s0 / Nalv \<cdot> A\<^sup>5\<^sup>/\<^sup>3 / P\<^sup>2\<^sup>/\<^sup>3\<close> and the celerity
  \<open>(q/3) \<cdot> (5/A - 4/(P \<cdot> B \<cdot> sin ANalv))\<close>, with the area \<open>A\<close>, the surface width \<open>B\<close> and the
  wetted perimeter \<open>P\<close> of the section, the cotangent taken as 0 and the sine as 1 for a
  rectangular section.
\<close>

theorem qoh_manning:
  "qoh y s0 Balv ANalv Nalv =
     (manning_q y s0 Balv ANalv Nalv, manning_A y Balv ANalv, manning_B y Balv ANalv,
      manning_P y Balv ANalv, manning_cel y s0 Balv ANalv Nalv)"
  by (simp add: qoh_def Let_def manning_q_def manning_A_def manning_B_def manning_P_def
      manning_cel_def section_cot_def section_sin_def cotan_def cot_def np_power_def not_less)

text \<open>At the depth 1 of the steady flow: discharge 1, area 1, width 2, celerity 4/3.\<close>

theorem qoh_manning_witness:
  "manning_q 1 (1 / 100) 0 (pi / 4) (1 / 20) = 1 \<and> manning_A 1 0 (pi / 4) = 1 \<and>
   manning_B 1 0 (pi / 4) = 2 \<and> manning_P 1 0 (pi / 4) = 2 * sqrt 2 \<and>
   manning_cel 1 (1 / 100) 0 (pi / 4) (1 / 20) = 4 / 3"
  using qoh_manning[of 1 "1 / 100" 0 "pi / 4" "1 / 20"] by (simp add: qoh_example)


lemma hoq_budget: "length [1..<max_tries] = 999"
  by (simp add: max_tries_def)



lemma hoq_loop_step:
  assumes "qoh y s0 Balv ANalv Nalv = (q0, Ax, Bx, Px, cel)"
  shows "hoq_loop (t # ts) q s0 Balv ANalv Nalv y =
    (if \<bar>(q0 - q) / (Bx * cel)\<bar> < eps then (y - (q0 - q) / (Bx * cel), 1)
     else (fst (hoq_loop ts q s0 Balv ANalv Nalv (y - (q0 - q) / (Bx * cel))),
           Suc (snd (hoq_loop ts q s0 Balv ANalv Nalv (y - (q0 - q) / (Bx * cel))))))"
  using assms by (simp add: Let_def split: prod.splits)




section \<open>Properties of the compress and explode pair\<close>

lemma explode_length [simp]: "length (explode ms v) = length ms"
  by (induction ms v rule: explode.induct) simp_all

lemma explode_compress:
  "length v = length (filter Not ms) \<Longrightarrow>
   map snd (filter (\<lambda>(m, x). \<not> m) (zip ms (explode ms v))) = v"
  by (induction ms v rule: explode.induct) simp_all

lemma explode_kinematic_zero:
  "i < length ms \<Longrightarrow> ms ! i \<Longrightarrow> explode ms v ! i = 0"
proof (induction ms v arbitrary: i rule: explode.induct)
  case (1 var)
  then show ?case by simp
next
  case (2 ms var)
  then show ?case by (cases i) simp_all
next
  case (3 ms)
  then show ?case by (cases i) simp_all
next
  case (4 ms x var)
  then show ?case by (cases i) simp_all
qed

lemma mct_positions_Cons:
  "mct_positions (m # ms) = (if m then [] else [0]) @ map Suc (mct_positions ms)"
proof -
  have "[0..<length (m # ms)] = 0 # map Suc [0..<length ms]"
    by (simp add: upt_conv_Cons map_Suc_upt del: upt_Suc)
  then show ?thesis
    by (simp add: mct_positions_def filter_map comp_def del: upt_Suc)
qed

lemma explode_positions:
  "length v = length (filter Not ms) \<Longrightarrow> map ((!) (explode ms v)) (mct_positions ms) = v"
proof (induction ms v rule: explode.induct)
  case (1 var)
  then show ?case by (simp add: mct_positions_def)
next
  case (2 ms var)
  then show ?case by (simp add: mct_positions_Cons comp_def)
next
  case (3 ms)
  then show ?case by simp
next
  case (4 ms x var)
  then show ?case by (simp add: mct_positions_Cons comp_def)
qed

text \<open>
  Claim C10. For a vector \<open>v\<close> with one entry per MCT pixel, \<^verbatim>\<open>put_mct_pix\<close> returns an array
  over all pixels that holds the entries of \<open>v\<close> at the MCT pixel positions, in their order,
  and zero at every kinematic pixel position; \<^verbatim>\<open>get_mct_pix\<close> of that array is \<open>v\<close> again.
\<close>

theorem put_get_mct_pix:
  assumes "length v = length (filter Not IsChannelKinematic)"
  shows "\<exists>full. put_mct_pix IsChannelKinematic v = Inr full \<and>
           length full = length IsChannelKinematic \<and>
           map ((!) full) (mct_positions IsChannelKinematic) = v \<and>
           (\<forall>i < length IsChannelKinematic. IsChannelKinematic ! i \<longrightarrow> full ! i = 0) \<and>
           get_mct_pix IsChannelKinematic full = Inr v"
proof -
  have "put_mct_pix IsChannelKinematic v = Inr (explode IsChannelKinematic v)"
    using assms by (simp add: put_mct_pix_def Let_def)
  moreover have "get_mct_pix IsChannelKinematic (explode IsChannelKinematic v) = Inr v"
    using assms by (simp add: get_mct_pix_def explode_compress)
  ultimately show ?thesis
    using assms by (auto simp add: explode_positions explode_kinematic_zero)
qed

text \<open>Four pixels, the two in the middle are MCT pixels.\<close>

theorem put_get_mct_pix_witness:
  "put_mct_pix [True, False, False, True] [3, 4] = Inr [0, 3, 4, 0] \<and>
   get_mct_pix [True, False, False, True] [0, 3, 4, 0 :: real] = Inr [3, 4] \<and>
   mct_positions [True, False, False, True] = [1, 2]"
proof -
  have "length [3, 4 :: real] = length (filter Not [True, False, False, True])" by simp
  from put_get_mct_pix[OF this]
  show ?thesis by (simp add: put_mct_pix_def get_mct_pix_def mct_positions_def upt_conv_Cons)
qed

section \<open>Properties of the routing orders\<close>









lemma routing_order_length [simp]: "length (routing_order td) = length td"
  by (simp add: routing_order_def)


lemma sort_values_length [simp]: "length (sort_values ro) = length ro"
  by (simp add: sort_values_def)


















end
